theory Spec2Isabelle
  imports Main "HOL-Library.Sublist"
begin

section \<open>The to-do list component: data model\<close>

text \<open>
  The component of \<^verbatim>\<open>src/unnamed/part_000\<close> keeps two hooks: \<^verbatim>\<open>useState<string[]>([])\<close>,
  a cell holding a reference to a JavaScript array, and \<^verbatim>\<open>useRef<HTMLInputElement>(null)\<close>,
  an object whose \<^verbatim>\<open>current\<close> field is \<^verbatim>\<open>null\<close> or the attached input element.

  Arrays are objects with identity, so they live in a store: the store is the sequence of
  the arrays allocated so far and a reference is a position in it. An array literal
  allocates at the end of the store and never touches an older cell.
\<close>

datatype error = TypeError

text \<open>
  The one field of the input element that the component reads. \<^verbatim>\<open>None\<close> stands for a
  \<^verbatim>\<open>value\<close> that is \<^verbatim>\<open>undefined\<close> or \<^verbatim>\<open>null\<close> at run time, the case the \<^verbatim>\<open>?? ''\<close> of
  line 93 provides for.
\<close>

record HTMLInputElement =
  "value" :: "string option"

text \<open>\<^verbatim>\<open>interface ListItemProps { value: string }\<close>\<close>

record ListItemProps =
  "value" :: string

type_synonym array_ref = nat

type_synonym store = "string list list"

record App_state =
  heap :: store
  list :: array_ref
  inputRef :: "HTMLInputElement option"

text \<open>
  A reference of a running program always points at an allocated array. \<^verbatim>\<open>deref\<close> is
  made total by the empty array for a position outside the store; the states of the
  component never reach that branch (\<^verbatim>\<open>wf_state\<close> below is an invariant).
\<close>

definition deref :: "store \<Rightarrow> array_ref \<Rightarrow> string list" where
  "deref h r = (if r < length h then h ! r else [])"

definition wf_state :: "App_state \<Rightarrow> bool" where
  "wf_state s = (list s < length (heap s))"

text \<open>The array that the state cell \<^verbatim>\<open>list\<close> currently refers to.\<close>

definition entries :: "App_state \<Rightarrow> string list" where
  "entries s = deref (heap s) (list s)"

text \<open>
  An array literal \<^verbatim>\<open>[...]\<close> with the given elements: a new array object, placed after
  every array allocated before.
\<close>

definition array_literal :: "string list \<Rightarrow> App_state \<Rightarrow> array_ref \<times> App_state" where
  "array_literal xs s = (length (heap s), s\<lparr>heap := heap s @ [xs]\<rparr>)"

text \<open>
  \<^verbatim>\<open>useState<string[]>([])\<close> and \<^verbatim>\<open>useRef<HTMLInputElement>(null)\<close>: the state cell starts
  at a newly allocated empty array, the ref starts unattached.
\<close>

definition App_init :: App_state where
  "App_init = \<lparr>heap = [[]], list = 0, inputRef = None\<rparr>"

section \<open>JavaScript operators used by the handler\<close>

text \<open>\<^verbatim>\<open>o.value\<close>: reading a property of \<^verbatim>\<open>null\<close> throws a TypeError.\<close>

definition member_value :: "HTMLInputElement option \<Rightarrow> error + string option" where
  "member_value obj =
     (case obj of None \<Rightarrow> Inl TypeError | Some el \<Rightarrow> Inr (HTMLInputElement.value el))"

text \<open>\<^verbatim>\<open>o?.value\<close>: \<^verbatim>\<open>undefined\<close> when \<^verbatim>\<open>o\<close> is \<^verbatim>\<open>null\<close>, and \<^verbatim>\<open>o.value\<close> otherwise.\<close>

definition optional_value :: "HTMLInputElement option \<Rightarrow> error + string option" where
  "optional_value obj = (case obj of None \<Rightarrow> Inr None | Some el \<Rightarrow> member_value obj)"

text \<open>\<^verbatim>\<open>a ?? b\<close>: \<^verbatim>\<open>b\<close> when \<^verbatim>\<open>a\<close> is \<^verbatim>\<open>undefined\<close> or \<^verbatim>\<open>null\<close>, and \<^verbatim>\<open>a\<close> otherwise.\<close>

definition nullish :: "'a option \<Rightarrow> 'a \<Rightarrow> 'a" where
  "nullish a b = (case a of None \<Rightarrow> b | Some v \<Rightarrow> v)"

section \<open>The submit handler\<close>

text \<open>
  The function passed to \<^verbatim>\<open>setList\<close> on line 93,
  \<^verbatim>\<open>(prevState) => [...prevState, inputRef.current?.value ?? '']\<close>.
  It reads \<^verbatim>\<open>inputRef.current\<close> from the state in which it runs, copies the elements
  of \<^verbatim>\<open>prevState\<close> into a new array and puts the value read after them.
\<close>

definition updater :: "array_ref \<Rightarrow> App_state \<Rightarrow> error + (array_ref \<times> App_state)" where
  "updater prevState s =
     (case optional_value (inputRef s) of
        Inl e \<Rightarrow> Inl e
      | Inr v \<Rightarrow> Inr (array_literal (deref (heap s) prevState @ [nullish v '''']) s))"

text \<open>
  The setter of \<^verbatim>\<open>useState\<close> called with a function: the function is applied to the
  reference currently in the cell and the cell then holds the reference it returns.
  The click is handled in one turn of the event loop, so the function runs in the state
  the handler left.
\<close>

definition setList ::
  "(array_ref \<Rightarrow> App_state \<Rightarrow> error + (array_ref \<times> App_state)) \<Rightarrow> App_state \<Rightarrow> error + App_state"
where
  "setList f s =
     (case f (list s) s of
        Inl e \<Rightarrow> Inl e
      | Inr (r, s') \<Rightarrow> Inr (s'\<lparr>list := r\<rparr>))"

text \<open>Lines 71 to 95: the guard on \<^verbatim>\<open>inputRef.current\<close>, then the call of \<^verbatim>\<open>setList\<close>.\<close>

definition onSubmit :: "App_state \<Rightarrow> error + App_state" where
  "onSubmit s = (if inputRef s \<noteq> None then setList updater s else Inr s)"

text \<open>
  A run of submit actions. Before each click the environment decides what
  \<^verbatim>\<open>inputRef.current\<close> is (unattached, or the input element with the text typed so far);
  the handler then runs on that state. An error ends the run, as an exception would.
\<close>

fun submits :: "HTMLInputElement option list \<Rightarrow> App_state \<Rightarrow> error + App_state" where
  "submits [] s = Inr s"
| "submits (c # cs) s =
     (case onSubmit (s\<lparr>inputRef := c\<rparr>) of
        Inl e \<Rightarrow> Inl e
      | Inr s' \<Rightarrow> submits cs s')"

section \<open>The rendered tree\<close>

text \<open>
  What a JSX attribute of this component can hold: a string, the ref object
  \<^verbatim>\<open>inputRef\<close>, or an event handler.
\<close>

datatype attr = Str string | InputRef | Handler "App_state \<Rightarrow> error + App_state"

text \<open>
  JSX elements: text, a host element (tag, attributes, children), the fragment
  \<^verbatim>\<open><>...</>\<close>, and the component element \<^verbatim>\<open><ListItem key={k} value={v}/>\<close> with its key
  and props.
\<close>

datatype node =
    Text string
  | Host string "(string \<times> attr) list" "node list"
  | Fragment "node list"
  | ListItemElement nat ListItemProps

text \<open>\<^verbatim>\<open>Array.prototype.map\<close>: the callback receives the element and its index.\<close>

fun map_from :: "nat \<Rightarrow> ('a \<Rightarrow> nat \<Rightarrow> 'b) \<Rightarrow> 'a list \<Rightarrow> 'b list" where
  "map_from i f [] = []"
| "map_from i f (x # xs) = f x i # map_from (Suc i) f xs"

definition array_map :: "('a \<Rightarrow> nat \<Rightarrow> 'b) \<Rightarrow> 'a list \<Rightarrow> 'b list" where
  "array_map f xs = map_from 0 f xs"

text \<open>Lines 20 to 24: \<^verbatim>\<open><li>{props.value}</li>\<close>.\<close>

definition ListItem :: "ListItemProps \<Rightarrow> node" where
  "ListItem props = Host ''li'' [] [Text (ListItemProps.value props)]"

text \<open>Lines 97 to 108: the tree that \<^verbatim>\<open>App\<close> returns for the current state.\<close>

definition App :: "App_state \<Rightarrow> node" where
  "App s = Fragment
     [Host ''h1'' [] [Text ''To-Do List''],
      Host ''ul'' []
        (array_map (\<lambda>v index. ListItemElement index \<lparr>ListItemProps.value = v\<rparr>)
           (deref (heap s) (list s))),
      Host ''input'' [(''ref'', InputRef), (''placeholder'', Str ''Enter a new item'')] [],
      Host ''button'' [(''onClick'', Handler (\<lambda>s. onSubmit s))] [Text ''Submit'']]"

text \<open>
  The host turns a component element into what the component function returns for its
  props; host elements and text stay as they are.
\<close>

fun render :: "node \<Rightarrow> node" where
  "render (Text t) = Text t"
| "render (Host tag attrs children) = Host tag attrs (map render children)"
| "render (Fragment children) = Fragment (map render children)"
| "render (ListItemElement k props) = ListItem props"

section \<open>Observations used to state the claims\<close>

text \<open>\<^verbatim>\<open>inputRef.current\<close> when the input element is attached and shows the text \<^verbatim>\<open>v\<close>.\<close>

definition attached :: "string \<Rightarrow> HTMLInputElement option" where
  "attached v = Some \<lparr>HTMLInputElement.value = Some v\<rparr>"

text \<open>
  What the handler reads from the control: nothing when no control is attached, and
  otherwise its text, with the empty string for a text that is undefined.
\<close>

definition read_value :: "App_state \<Rightarrow> string option" where
  "read_value s =
     (case inputRef s of
        None \<Rightarrow> None
      | Some el \<Rightarrow> Some (nullish (HTMLInputElement.value el) ''''))"

text \<open>What a run of clicks appends: the texts read at the clicks with a control attached.\<close>

definition texts_read :: "HTMLInputElement option list \<Rightarrow> string list" where
  "texts_read cs =
     concat (map (\<lambda>c. case c of None \<Rightarrow> []
                       | Some el \<Rightarrow> [nullish (HTMLInputElement.value el) '''']) cs)"

section \<open>Basic facts\<close>

lemma optional_value_Inr:
  "optional_value obj =
     Inr (case obj of None \<Rightarrow> None | Some el \<Rightarrow> HTMLInputElement.value el)"
  by (simp add: optional_value_def member_value_def split: option.splits)

lemma deref_last: "deref (h @ [xs]) (length h) = xs"
  by (simp add: deref_def)

lemma deref_older: "r < length h \<Longrightarrow> deref (h @ [xs]) r = deref h r"
  by (simp add: deref_def nth_append)

lemma updater_eq:
  "updater prevState s =
     Inr (length (heap s),
          s\<lparr>heap := heap s @
             [deref (heap s) prevState @
              [nullish (case inputRef s of None \<Rightarrow> None
                        | Some el \<Rightarrow> HTMLInputElement.value el) '''']]\<rparr>)"
  by (simp add: updater_def optional_value_Inr array_literal_def)

lemma onSubmit_attached:
  assumes "inputRef s = Some el"
  shows "onSubmit s =
     Inr (s\<lparr>heap := heap s @ [entries s @ [nullish (HTMLInputElement.value el) '''']],
            list := length (heap s)\<rparr>)"
  using assms by (simp add: onSubmit_def setList_def updater_eq entries_def)

lemma onSubmit_null_ref: "inputRef s = None \<Longrightarrow> onSubmit s = Inr s"
  by (simp add: onSubmit_def)

lemma entries_alloc:
  "entries (s\<lparr>heap := heap s @ [xs], list := length (heap s)\<rparr>) = xs"
  by (simp add: entries_def deref_last)

lemma wf_alloc:
  "wf_state (s\<lparr>heap := heap s @ [xs], list := length (heap s)\<rparr>)"
  by (simp add: wf_state_def)

lemma wf_App_init: "wf_state App_init"
  by (simp add: wf_state_def App_init_def)

lemma entries_App_init: "entries App_init = []"
  by (simp add: entries_def deref_def App_init_def)

lemma entries_inputRef_update [simp]: "entries (s\<lparr>inputRef := c\<rparr>) = entries s"
  by (simp add: entries_def)

lemma wf_inputRef_update [simp]: "wf_state (s\<lparr>inputRef := c\<rparr>) = wf_state s"
  by (simp add: wf_state_def)

lemma read_value_inputRef_update [simp]:
  "read_value (s\<lparr>inputRef := c\<rparr>) =
     (case c of None \<Rightarrow> None | Some el \<Rightarrow> Some (nullish (HTMLInputElement.value el) ''''))"
  by (simp add: read_value_def)

text \<open>
  One step, summarised: the handler returns, the ref is as before, and the entries
  are the old ones followed by what was read, if anything was.
\<close>

lemma onSubmit_entries:
  "\<exists>s'. onSubmit s = Inr s' \<and> inputRef s' = inputRef s \<and>
        (wf_state s \<longrightarrow> wf_state s') \<and>
        entries s' = entries s @ (case read_value s of None \<Rightarrow> [] | Some v \<Rightarrow> [v])"
proof (cases "inputRef s")
  case None
  then show ?thesis
    by (simp add: onSubmit_null_ref read_value_def)
next
  case (Some el)
  then show ?thesis
    by (simp add: onSubmit_attached read_value_def entries_alloc wf_alloc)
qed

lemma submits_entries:
  "\<exists>s'. submits cs s = Inr s' \<and> (wf_state s \<longrightarrow> wf_state s') \<and>
        entries s' = entries s @ texts_read cs"
proof (induction cs arbitrary: s)
  case Nil
  show ?case by (simp add: texts_read_def)
next
  case (Cons c cs)
  obtain s1 where s1: "onSubmit (s\<lparr>inputRef := c\<rparr>) = Inr s1"
      "wf_state s \<longrightarrow> wf_state s1"
      "entries s1 = entries s @
         (case read_value (s\<lparr>inputRef := c\<rparr>) of None \<Rightarrow> [] | Some v \<Rightarrow> [v])"
    using onSubmit_entries [of "s\<lparr>inputRef := c\<rparr>"] by auto
  obtain s2 where s2: "submits cs s1 = Inr s2" "wf_state s1 \<longrightarrow> wf_state s2"
      "entries s2 = entries s1 @ texts_read cs"
    using Cons.IH [of s1] by auto
  have "texts_read (c # cs) =
          (case read_value (s\<lparr>inputRef := c\<rparr>) of None \<Rightarrow> [] | Some v \<Rightarrow> [v]) @ texts_read cs"
    by (simp add: texts_read_def split: option.splits)
  with s1 s2 show ?case by simp
qed

lemma wf_state_submits: "wf_state s \<Longrightarrow> submits cs s = Inr s' \<Longrightarrow> wf_state s'"
  using submits_entries [of cs s] by auto

lemma texts_read_attached: "texts_read (map attached vs) = vs"
  by (induction vs) (simp_all add: texts_read_def attached_def nullish_def)

lemma length_map_from: "length (map_from i f xs) = length xs"
  by (induction xs arbitrary: i) simp_all

lemma nth_map_from: "n < length xs \<Longrightarrow> map_from i f xs ! n = f (xs ! n) (i + n)"
proof (induction xs arbitrary: i n)
  case Nil
  then show ?case by simp
next
  case (Cons x xs)
  then show ?case by (cases n) simp_all
qed

lemma render_map_from_ListItem:
  "map render (map_from i (\<lambda>v index. ListItemElement index \<lparr>ListItemProps.value = v\<rparr>) xs) =
     map (\<lambda>v. Host ''li'' [] [Text v]) xs"
  by (induction xs arbitrary: i) (simp_all add: ListItem_def)

section \<open>Claims\<close>

text \<open>
  C1. With a control attached whose text is \<^verbatim>\<open>v\<close>, \<^verbatim>\<open>onSubmit\<close> returns normally and
  the entries become the old entries followed by \<^verbatim>\<open>v\<close>. The state cell then holds a
  reference that was not allocated before the call (a fresh array, different from the
  old reference), and every array allocated before, the old entries array among them,
  still has the contents it had.
\<close>

theorem onSubmit_appends_fresh:
  assumes "wf_state s"
    and "inputRef s = Some el"
    and "HTMLInputElement.value el = Some v"
  shows "\<exists>s'. onSubmit s = Inr s' \<and>
           entries s' = entries s @ [v] \<and>
           last (entries s') = v \<and>
           list s' \<noteq> list s \<and>
           length (heap s) \<le> list s' \<and> list s' < length (heap s') \<and>
           (\<forall>r<length (heap s). deref (heap s') r = deref (heap s) r) \<and>
           deref (heap s') (list s) = entries s"
proof -
  let ?s' = "s\<lparr>heap := heap s @ [entries s @ [v]], list := length (heap s)\<rparr>"
  have run: "onSubmit s = Inr ?s'"
    using onSubmit_attached [OF assms(2)] assms(3) by (simp add: nullish_def)
  have new: "entries ?s' = entries s @ [v]"
    by (rule entries_alloc)
  have old: "list s < length (heap s)"
    using assms(1) by (simp add: wf_state_def)
  have kept: "\<forall>r<length (heap s). deref (heap ?s') r = deref (heap s) r"
    by (simp add: deref_older)
  have "deref (heap ?s') (list s) = entries s"
    using old by (simp add: deref_older entries_def)
  with run new old kept show ?thesis
    by (intro exI [of _ ?s']) simp
qed

theorem onSubmit_appends_fresh_witness:
  "wf_state (App_init\<lparr>inputRef := attached ''Milk''\<rparr>) \<and>
   inputRef (App_init\<lparr>inputRef := attached ''Milk''\<rparr>) =
     Some \<lparr>HTMLInputElement.value = Some ''Milk''\<rparr> \<and>
   HTMLInputElement.value \<lparr>HTMLInputElement.value = Some ''Milk''\<rparr> = Some ''Milk'' \<and>
   (\<exists>s'. onSubmit (App_init\<lparr>inputRef := attached ''Milk''\<rparr>) = Inr s' \<and>
         entries s' = [''Milk''] \<and> list s' \<noteq> 0 \<and> deref (heap s') 0 = [])"
proof -
  let ?s = "App_init\<lparr>inputRef := attached ''Milk''\<rparr>"
  let ?el = "\<lparr>HTMLInputElement.value = Some ''Milk''\<rparr>"
  have h1: "wf_state ?s" by (simp add: wf_App_init)
  have h2: "inputRef ?s = Some ?el" by (simp add: attached_def)
  have h3: "HTMLInputElement.value ?el = Some ''Milk''" by simp
  have e: "entries ?s = []" by (simp add: entries_App_init)
  have l: "list ?s = 0" by (simp add: App_init_def)
  from onSubmit_appends_fresh [OF h1 h2 h3] h1 h2 h3 e l show ?thesis
    by auto
qed

text \<open>
  C2. When \<^verbatim>\<open>inputRef.current\<close> is \<^verbatim>\<open>null\<close>, \<^verbatim>\<open>onSubmit\<close> does nothing: it returns
  normally with the state it was given, so the entries are the same list and nothing is
  appended.
\<close>

theorem onSubmit_unattached_noop:
  assumes "inputRef s = None"
  shows "onSubmit s = Inr s \<and>
         (\<exists>s'. onSubmit s = Inr s' \<and> entries s' = entries s \<and>
               length (entries s') = length (entries s))"
  using assms by (simp add: onSubmit_def)

theorem onSubmit_unattached_noop_witness:
  "inputRef App_init = None \<and> onSubmit App_init = Inr App_init \<and>
   (\<exists>s'. onSubmit App_init = Inr s' \<and> entries s' = [])"
proof -
  have h: "inputRef App_init = None" by (simp add: App_init_def)
  from onSubmit_unattached_noop [OF h] h show ?thesis
    by (simp add: entries_App_init)
qed

text \<open>
  C3. Starting from the initial state, \<^verbatim>\<open>N\<close> clicks, each with a control attached and
  showing \<^verbatim>\<open>v1\<close>, ..., \<^verbatim>\<open>vN\<close> in turn, all return normally; the entries are then
  \<^verbatim>\<open>v1\<close>, ..., \<^verbatim>\<open>vN\<close> in that order, \<^verbatim>\<open>N\<close> of them, and the rendered list has one
  item per value, in the same order.
\<close>

theorem submits_from_init:
  "\<exists>s'. submits (map attached vs) App_init = Inr s' \<and>
        entries s' = vs \<and>
        length (entries s') = length vs \<and>
        render (App s') = Fragment
          [Host ''h1'' [] [Text ''To-Do List''],
           Host ''ul'' [] (map (\<lambda>v. Host ''li'' [] [Text v]) vs),
           Host ''input'' [(''ref'', InputRef), (''placeholder'', Str ''Enter a new item'')] [],
           Host ''button'' [(''onClick'', Handler onSubmit)] [Text ''Submit'']]"
proof -
  obtain s' where s': "submits (map attached vs) App_init = Inr s'"
      "entries s' = entries App_init @ texts_read (map attached vs)"
    using submits_entries [of "map attached vs" App_init] by auto
  have e: "entries s' = vs"
    using s'(2) by (simp add: entries_App_init texts_read_attached)
  then have "deref (heap s') (list s') = vs"
    by (simp add: entries_def)
  then have "render (App s') = Fragment
          [Host ''h1'' [] [Text ''To-Do List''],
           Host ''ul'' [] (map (\<lambda>v. Host ''li'' [] [Text v]) vs),
           Host ''input'' [(''ref'', InputRef), (''placeholder'', Str ''Enter a new item'')] [],
           Host ''button'' [(''onClick'', Handler onSubmit)] [Text ''Submit'']]"
    by (simp add: App_def array_map_def render_map_from_ListItem)
  with s'(1) e show ?thesis by simp
qed

text \<open>
  C4. Every call of \<^verbatim>\<open>onSubmit\<close> returns normally with entries that start with the
  entries before the call, so nothing is dropped, overwritten or moved; with a control
  attached the list is longer by exactly one. The same holds along any run of clicks:
  the entries at the start are a prefix of the entries at the end, and the length has
  grown by the number of clicks that found a control attached.
\<close>

theorem entries_only_grow:
  "\<exists>s'. onSubmit s = Inr s' \<and>
        prefix (entries s) (entries s') \<and>
        take (length (entries s)) (entries s') = entries s \<and>
        (inputRef s \<noteq> None \<longrightarrow> length (entries s') = length (entries s) + 1) \<and>
        (inputRef s = None \<longrightarrow> entries s' = entries s) \<and>
        (\<exists>s''. submits cs s = Inr s'' \<and>
           prefix (entries s) (entries s'') \<and>
           length (entries s'') = length (entries s) + length (filter (\<lambda>c. c \<noteq> None) cs))"
proof -
  obtain s' where s': "onSubmit s = Inr s'"
      "entries s' = entries s @ (case read_value s of None \<Rightarrow> [] | Some v \<Rightarrow> [v])"
    using onSubmit_entries [of s] by auto
  obtain s'' where s'': "submits cs s = Inr s''" "entries s'' = entries s @ texts_read cs"
    using submits_entries [of cs s] by auto
  have len: "length (texts_read cs) = length (filter (\<lambda>c. c \<noteq> None) cs)"
    by (induction cs) (simp_all add: texts_read_def split: option.splits)
  have one: "inputRef s \<noteq> None \<longrightarrow> length (entries s') = length (entries s) + 1"
    using s'(2) by (auto simp: read_value_def split: option.splits)
  have none: "inputRef s = None \<longrightarrow> entries s' = entries s"
    using s'(2) by (simp add: read_value_def)
  have "prefix (entries s) (entries s'')"
    using s''(2) by simp
  moreover have "length (entries s'') = length (entries s) + length (filter (\<lambda>c. c \<noteq> None) cs)"
    using s''(2) len by simp
  ultimately have run: "\<exists>s''. submits cs s = Inr s'' \<and>
           prefix (entries s) (entries s'') \<and>
           length (entries s'') = length (entries s) + length (filter (\<lambda>c. c \<noteq> None) cs)"
    using s''(1) by (intro exI [of _ s'']) simp
  have step: "prefix (entries s) (entries s')"
      "take (length (entries s)) (entries s') = entries s"
    using s'(2) by simp_all
  from s'(1) step one none run show ?thesis
    by (intro exI [of _ s']) simp
qed

theorem entries_only_grow_witness:
  "inputRef (App_init\<lparr>inputRef := attached ''Milk''\<rparr>) \<noteq> None \<and>
   (\<exists>s'. onSubmit (App_init\<lparr>inputRef := attached ''Milk''\<rparr>) = Inr s' \<and>
         length (entries s') = 1) \<and>
   inputRef App_init = None \<and>
   (\<exists>s'. onSubmit App_init = Inr s' \<and> entries s' = [])"
proof -
  let ?s = "App_init\<lparr>inputRef := attached ''Milk''\<rparr>"
  have h: "inputRef ?s \<noteq> None" by (simp add: attached_def)
  have e: "entries ?s = []" by (simp add: entries_App_init)
  have n: "inputRef App_init = None" by (simp add: App_init_def)
  from entries_only_grow [of ?s "[]"] h e
  have a: "\<exists>s'. onSubmit ?s = Inr s' \<and> length (entries s') = 1"
    by auto
  from entries_only_grow [of App_init "[]"] n
  have b: "\<exists>s'. onSubmit App_init = Inr s' \<and> entries s' = []"
    by (auto simp: entries_App_init)
  from a b h n show ?thesis by blast
qed

text \<open>
  C5. For every state, \<^verbatim>\<open>App\<close> returns a fragment of four elements: the heading, the
  list, the input with \<^verbatim>\<open>ref={inputRef}\<close> and the placeholder "Enter a new item", and
  the button labelled "Submit" whose click handler is \<^verbatim>\<open>onSubmit\<close>. The list has one
  \<^verbatim>\<open>ListItem\<close> element per entry, in order; the element at position \<^verbatim>\<open>i\<close> has key
  \<^verbatim>\<open>i\<close> and the value of entry \<^verbatim>\<open>i\<close>, and renders as a list item showing that entry.
\<close>

theorem App_tree:
  "\<exists>items. App s = Fragment
          [Host ''h1'' [] [Text ''To-Do List''],
           Host ''ul'' [] items,
           Host ''input'' [(''ref'', InputRef), (''placeholder'', Str ''Enter a new item'')] [],
           Host ''button'' [(''onClick'', Handler onSubmit)] [Text ''Submit'']] \<and>
        length items = length (entries s) \<and>
        (\<forall>i<length (entries s).
           items ! i = ListItemElement i \<lparr>ListItemProps.value = entries s ! i\<rparr> \<and>
           render (items ! i) = Host ''li'' [] [Text (entries s ! i)])"
proof -
  let ?items = "array_map (\<lambda>v index. ListItemElement index \<lparr>ListItemProps.value = v\<rparr>)
                  (entries s)"
  have tree: "App s = Fragment
          [Host ''h1'' [] [Text ''To-Do List''],
           Host ''ul'' [] ?items,
           Host ''input'' [(''ref'', InputRef), (''placeholder'', Str ''Enter a new item'')] [],
           Host ''button'' [(''onClick'', Handler onSubmit)] [Text ''Submit'']]"
    by (simp add: App_def entries_def)
  have len: "length ?items = length (entries s)"
    by (simp add: array_map_def length_map_from)
  have item: "\<forall>i<length (entries s).
           ?items ! i = ListItemElement i \<lparr>ListItemProps.value = entries s ! i\<rparr> \<and>
           render (?items ! i) = Host ''li'' [] [Text (entries s ! i)]"
    by (simp add: array_map_def nth_map_from ListItem_def)
  from tree len item show ?thesis by blast
qed

theorem App_tree_witness:
  "(1::nat) < length (entries \<lparr>heap = [[''Milk'', ''Eggs'']], list = 0, inputRef = None\<rparr>) \<and>
   (\<exists>items. App \<lparr>heap = [[''Milk'', ''Eggs'']], list = 0, inputRef = None\<rparr> = Fragment
          [Host ''h1'' [] [Text ''To-Do List''],
           Host ''ul'' [] items,
           Host ''input'' [(''ref'', InputRef), (''placeholder'', Str ''Enter a new item'')] [],
           Host ''button'' [(''onClick'', Handler onSubmit)] [Text ''Submit'']] \<and>
        length items = 2 \<and>
        items ! 1 = ListItemElement 1 \<lparr>ListItemProps.value = ''Eggs''\<rparr> \<and>
        render (items ! 1) = Host ''li'' [] [Text ''Eggs''])"
proof -
  let ?s = "\<lparr>heap = [[''Milk'', ''Eggs'']], list = 0, inputRef = None\<rparr>"
  have e: "entries ?s = [''Milk'', ''Eggs'']"
    by (simp add: entries_def deref_def)
  then have h: "(1::nat) < length (entries ?s)" by simp
  from App_tree [of ?s] obtain items where it: "App ?s = Fragment
          [Host ''h1'' [] [Text ''To-Do List''],
           Host ''ul'' [] items,
           Host ''input'' [(''ref'', InputRef), (''placeholder'', Str ''Enter a new item'')] [],
           Host ''button'' [(''onClick'', Handler onSubmit)] [Text ''Submit'']]"
      "length items = length (entries ?s)"
      "\<forall>i<length (entries ?s).
           items ! i = ListItemElement i \<lparr>ListItemProps.value = entries ?s ! i\<rparr> \<and>
           render (items ! i) = Host ''li'' [] [Text (entries ?s ! i)]"
    by blast
  from it(3) h have "items ! 1 = ListItemElement 1 \<lparr>ListItemProps.value = entries ?s ! 1\<rparr> \<and>
           render (items ! 1) = Host ''li'' [] [Text (entries ?s ! 1)]"
    by blast
  with e have "items ! 1 = ListItemElement 1 \<lparr>ListItemProps.value = ''Eggs''\<rparr> \<and>
           render (items ! 1) = Host ''li'' [] [Text ''Eggs'']"
    by (simp add: ListItem_def)
  moreover from it(2) e have "length items = 2" by simp
  ultimately show ?thesis using it(1) h by blast
qed

text \<open>
  C6. With a control attached whose text is the empty string, or undefined,
  \<^verbatim>\<open>onSubmit\<close> returns normally and appends the empty string: the entries are the old
  ones followed by \<^verbatim>\<open>''\<close>, one more than before. Blank input is not rejected.
\<close>

theorem onSubmit_blank:
  assumes "inputRef s = Some el"
    and "HTMLInputElement.value el = None \<or> HTMLInputElement.value el = Some ''''"
  shows "\<exists>s'. onSubmit s = Inr s' \<and>
           entries s' = entries s @ [''''] \<and>
           length (entries s') = length (entries s) + 1"
proof -
  have "nullish (HTMLInputElement.value el) '''' = ''''"
    using assms(2) by (auto simp: nullish_def)
  then show ?thesis
    using onSubmit_attached [OF assms(1)] by (simp add: entries_alloc)
qed

theorem onSubmit_blank_witness:
  "inputRef (App_init\<lparr>inputRef := Some \<lparr>HTMLInputElement.value = None\<rparr>\<rparr>) =
     Some \<lparr>HTMLInputElement.value = None\<rparr> \<and>
   (HTMLInputElement.value \<lparr>HTMLInputElement.value = None\<rparr> = None \<or>
    HTMLInputElement.value \<lparr>HTMLInputElement.value = None\<rparr> = Some '''') \<and>
   (\<exists>s'. onSubmit (App_init\<lparr>inputRef := Some \<lparr>HTMLInputElement.value = None\<rparr>\<rparr>) = Inr s' \<and>
         entries s' = ['''']) \<and>
   inputRef (App_init\<lparr>inputRef := attached ''''\<rparr>) =
     Some \<lparr>HTMLInputElement.value = Some ''''\<rparr> \<and>
   (HTMLInputElement.value \<lparr>HTMLInputElement.value = Some ''''\<rparr> = None \<or>
    HTMLInputElement.value \<lparr>HTMLInputElement.value = Some ''''\<rparr> = Some '''') \<and>
   (\<exists>s'. onSubmit (App_init\<lparr>inputRef := attached ''''\<rparr>) = Inr s' \<and>
         entries s' = [''''])"
proof -
  let ?u = "\<lparr>HTMLInputElement.value = None\<rparr>"
  let ?e = "\<lparr>HTMLInputElement.value = Some ''''\<rparr>"
  let ?s = "App_init\<lparr>inputRef := Some ?u\<rparr>"
  let ?t = "App_init\<lparr>inputRef := attached ''''\<rparr>"
  have s1: "inputRef ?s = Some ?u" by simp
  have s2: "HTMLInputElement.value ?u = None \<or> HTMLInputElement.value ?u = Some ''''"
    by simp
  have t1: "inputRef ?t = Some ?e" by (simp add: attached_def)
  have t2: "HTMLInputElement.value ?e = None \<or> HTMLInputElement.value ?e = Some ''''"
    by simp
  from onSubmit_blank [OF s1 s2]
  have a: "\<exists>s'. onSubmit ?s = Inr s' \<and> entries s' = ['''']"
    by (auto simp: entries_App_init)
  from onSubmit_blank [OF t1 t2]
  have b: "\<exists>s'. onSubmit ?t = Inr s' \<and> entries s' = ['''']"
    by (auto simp: entries_App_init)
  from s1 s2 a t1 t2 b show ?thesis by blast
qed

text \<open>
  C7. The tree that \<^verbatim>\<open>App\<close> returns, and what it renders to, are determined by the
  entries alone: two states with the same entries give the same trees, whatever the
  control holds and wherever the array lives. \<^verbatim>\<open>ListItem\<close> returns one list item whose
  only child is the value of its props, unchanged, so equal values give equal items
  and different values different ones.
\<close>

theorem render_determined_by_entries:
  assumes "entries s = entries t"
  shows "App s = App t \<and> render (App s) = render (App t) \<and>
         ListItem p = Host ''li'' [] [Text (ListItemProps.value p)] \<and>
         (ListItem p = ListItem q \<longleftrightarrow> ListItemProps.value p = ListItemProps.value q)"
proof -
  have "deref (heap s) (list s) = deref (heap t) (list t)"
    using assms by (simp add: entries_def)
  then have "App s = App t"
    by (simp add: App_def)
  then show ?thesis
    by (simp add: ListItem_def)
qed

theorem render_determined_by_entries_witness:
  "entries (App_init\<lparr>inputRef := attached ''typed''\<rparr>) =
     entries \<lparr>heap = [[''old''], []], list = 1, inputRef = None\<rparr> \<and>
   App (App_init\<lparr>inputRef := attached ''typed''\<rparr>) =
     App \<lparr>heap = [[''old''], []], list = 1, inputRef = None\<rparr> \<and>
   render (App (App_init\<lparr>inputRef := attached ''typed''\<rparr>)) =
     render (App \<lparr>heap = [[''old''], []], list = 1, inputRef = None\<rparr>) \<and>
   ListItem \<lparr>ListItemProps.value = ''Milk''\<rparr> = Host ''li'' [] [Text ''Milk'']"
proof -
  let ?s = "App_init\<lparr>inputRef := attached ''typed''\<rparr>"
  let ?t = "\<lparr>heap = [[''old''], []], list = 1, inputRef = None\<rparr>"
  have h: "entries ?s = entries ?t"
    by (simp add: entries_App_init) (simp add: entries_def deref_def)
  from render_determined_by_entries
         [OF h, of "\<lparr>ListItemProps.value = ''Milk''\<rparr>" "\<lparr>ListItemProps.value = ''Milk''\<rparr>"] h
  show ?thesis by simp
qed

text \<open>
  C8. \<^verbatim>\<open>onSubmit\<close> never writes to the control: after the call \<^verbatim>\<open>inputRef.current\<close>
  is what it was, with the same text. The state after the call differs from the state
  before in the state cell \<^verbatim>\<open>list\<close> and the array allocated for it at most; the store
  before the call is an initial part of the store after it.
\<close>

theorem onSubmit_frame:
  "\<exists>s'. onSubmit s = Inr s' \<and>
        inputRef s' = inputRef s \<and>
        s' = s\<lparr>heap := heap s', list := list s'\<rparr> \<and>
        prefix (heap s) (heap s')"
proof (cases "inputRef s")
  case None
  then show ?thesis by (simp add: onSubmit_null_ref)
next
  case (Some el)
  then show ?thesis by (simp add: onSubmit_attached)
qed

text \<open>
  C9. \<^verbatim>\<open>onSubmit\<close> returns normally in every state: whatever the entries and whatever
  \<^verbatim>\<open>inputRef.current\<close> is, the result is a state and never the TypeError of reading a
  property of \<^verbatim>\<open>null\<close>. The function passed to \<^verbatim>\<open>setList\<close> returns normally in every
  state in which it may run, also one where \<^verbatim>\<open>inputRef.current\<close> is \<^verbatim>\<open>null\<close> or the
  control's text is undefined.
\<close>

theorem onSubmit_total:
  "(\<exists>s'. onSubmit s = Inr s') \<and> onSubmit s \<noteq> Inl TypeError \<and>
   (\<exists>r t'. updater prevState t = Inr (r, t')) \<and>
   (\<exists>t'. setList updater t = Inr t')"
proof -
  have u: "\<And>p x. \<exists>r x'. updater p x = Inr (r, x')"
    by (simp add: updater_eq)
  have sl: "\<And>x. \<exists>x'. setList updater x = Inr x'"
    by (simp add: setList_def updater_eq)
  have "\<exists>s'. onSubmit s = Inr s'"
    using sl [of s] by (simp add: onSubmit_def)
  then show ?thesis
    using u [of prevState t] sl [of t] by auto
qed

text \<open>
  C10. The entries after \<^verbatim>\<open>onSubmit\<close> are a function of the entries before and of what
  is read from the control (nothing when no control is attached, otherwise its text,
  the empty string for a text that is undefined): two states with the same entries and
  the same reading give the same entries afterwards, whatever else differs between
  them, such as where the arrays live in the store.
\<close>

theorem onSubmit_deterministic:
  assumes "entries s1 = entries s2"
    and "read_value s1 = read_value s2"
  shows "\<exists>t1 t2. onSubmit s1 = Inr t1 \<and> onSubmit s2 = Inr t2 \<and> entries t1 = entries t2"
proof -
  obtain t1 where t1: "onSubmit s1 = Inr t1"
      "entries t1 = entries s1 @ (case read_value s1 of None \<Rightarrow> [] | Some v \<Rightarrow> [v])"
    using onSubmit_entries [of s1] by auto
  obtain t2 where t2: "onSubmit s2 = Inr t2"
      "entries t2 = entries s2 @ (case read_value s2 of None \<Rightarrow> [] | Some v \<Rightarrow> [v])"
    using onSubmit_entries [of s2] by auto
  from t1 t2 assms show ?thesis by simp
qed

theorem onSubmit_deterministic_witness:
  "entries (App_init\<lparr>inputRef := attached ''Milk''\<rparr>) =
     entries \<lparr>heap = [[''old''], []], list = 1, inputRef = attached ''Milk''\<rparr> \<and>
   read_value (App_init\<lparr>inputRef := attached ''Milk''\<rparr>) =
     read_value \<lparr>heap = [[''old''], []], list = 1, inputRef = attached ''Milk''\<rparr> \<and>
   (\<exists>t1 t2. onSubmit (App_init\<lparr>inputRef := attached ''Milk''\<rparr>) = Inr t1 \<and>
      onSubmit \<lparr>heap = [[''old''], []], list = 1, inputRef = attached ''Milk''\<rparr> = Inr t2 \<and>
      entries t1 = entries t2)"
proof -
  let ?s = "App_init\<lparr>inputRef := attached ''Milk''\<rparr>"
  let ?t = "\<lparr>heap = [[''old''], []], list = 1, inputRef = attached ''Milk''\<rparr>"
  have h1: "entries ?s = entries ?t"
    by (simp add: entries_App_init) (simp add: entries_def deref_def)
  have h2: "read_value ?s = read_value ?t"
    by (simp add: read_value_def)
  from onSubmit_deterministic [OF h1 h2] h1 h2 show ?thesis by blast
qed

end
